theory Spec2Isabelle
  imports Main "HOL-Library.Word"
begin

section \<open>csv2db.py: streaming a CSV member of an archive into sqlite3 through a FIFO\<close>

text \<open>
  The script \<^verbatim>\<open>src/csv2db.py\<close> creates a FIFO in a fresh temporary directory, lets
  \<^verbatim>\<open>sqlite3\<close> create the table, starts a second \<^verbatim>\<open>sqlite3\<close> that imports from the
  FIFO, and copies the CSV bytes into the FIFO in chunks of \<open>2 ^ buf_size_power\<close> bytes,
  starting at power 24 and backing off by one at every \<^verbatim>\<open>BrokenPipeError\<close>. A
  \<^verbatim>\<open>finally\<close> block quits \<^verbatim>\<open>sqlite3\<close> and removes the FIFO and the directory.

  Everything the script does is a call into the operating system, so the embedding has
  three parts: an environment \<open>env\<close> that fixes what every such call answers (the bytes
  of the CSV member, and for every call that can fail the exception it raises, if any),
  a \<open>world\<close> holding the state outside the program that the calls change, and the list
  of \<open>event\<close>s, one per call made, in the order the program makes them. Python
  exceptions are values: a block evaluates to \<open>Return v\<close> or \<open>Raise e\<close>.
\<close>

subsection \<open>Bytes, exceptions, outcomes\<close>

type_synonym byte = "8 word"

text \<open>
  The exception classes that occur. \<^verbatim>\<open>FileNotFoundError\<close> and \<^verbatim>\<open>BrokenPipeError\<close> are
  subclasses of \<^verbatim>\<open>OSError\<close>, which is what \<^verbatim>\<open>except OSError\<close> at line 91 tests.
\<close>

datatype exn =
    OSError
  | FileNotFoundError
  | BrokenPipeError
  | TypeError
  | CalledProcessError int
  | UnboundLocalError string
  | ReError

fun isinstance_OSError :: "exn \<Rightarrow> bool" where
  "isinstance_OSError OSError = True"
| "isinstance_OSError FileNotFoundError = True"
| "isinstance_OSError BrokenPipeError = True"
| "isinstance_OSError _ = False"

datatype 'a outcome = Return 'a | Raise exn

text \<open>\<^verbatim>\<open>transfer\<close> returns \<^verbatim>\<open>True\<close> or falls off its end, which returns \<^verbatim>\<open>None\<close>.\<close>

datatype retval = PyNone | PyTrue

subsection \<open>Events, environment, world\<close>

text \<open>
  One event per call, recorded when the call is made, whether it then returns or raises.
  \<open>LogWorked p\<close> and \<open>LogFailed p\<close> are the two log lines of the retry loop
  (lines 122 and 125), \<open>PrintFailed b\<close> the \<^verbatim>\<open>print\<close> of line 169, \<open>LogFifoFailed\<close> the
  \<^verbatim>\<open>logger.exception\<close> of line 92. The other log lines are not recorded.
\<close>

datatype event =
    Mkdtemp | Mkfifo | LogFifoFailed
  | RunCreateTable | PopenImport
  | OpenFifo | CsvSeek nat | CsvRead nat | FifoWrite "byte list" | FifoFlush | FifoClose
  | PrintFailed nat | LogWorked nat | LogFailed nat
  | CsvClose | StdinWrite | StdinFlush | StdinClose | ProcWait
  | OsRemove | OsRmdir

text \<open>
  The environment. \<open>write_exn env k s n\<close> is the answer to a \<^verbatim>\<open>fifo_fh.write\<close> of
  \<open>n\<close> bytes on the \<open>k\<close>-th open of the FIFO (\<open>k = 1, 2, \<dots>\<close>) after \<open>s\<close> bytes
  were accepted on that open; \<open>flush_exn env k s\<close> is the answer to flushing the
  writer's buffer on that open, \<open>s\<close> counting every byte accepted so far. \<open>None\<close>
  means that the call returns. \<open>which_sqlite3\<close> tells whether \<^verbatim>\<open>which("sqlite3")\<close>
  finds the program, \<open>run_returncode\<close> is the exit status of the table-creating
  \<^verbatim>\<open>run(..., check=True)\<close>.

  \<^verbatim>\<open>fifo_fh\<close> is a buffered writer. A chunk that fits its buffer is only stored by
  \<^verbatim>\<open>write\<close>, and a reader that has closed its end shows at the \<^verbatim>\<open>flush\<close>; a larger chunk
  is written through, and the closed end shows at the \<^verbatim>\<open>write\<close>. Both are answers of
  the environment. A flush that raises leaves the bytes in the buffer, and \<^verbatim>\<open>close\<close>,
  which flushes what the buffer holds, then raises again.

  Opening the FIFO for writing (which waits until a reader has it open), \<^verbatim>\<open>seek\<close>,
  \<^verbatim>\<open>read\<close> and closing \<^verbatim>\<open>csv_fh\<close> are taken to return.
\<close>

record env =
  csv_data :: "byte list"
  mkdtemp_exn :: "exn option"
  mkfifo_exn :: "exn option"
  which_sqlite3 :: bool
  run_returncode :: int
  popen_exn :: "exn option"
  write_exn :: "nat \<Rightarrow> nat \<Rightarrow> nat \<Rightarrow> exn option"
  flush_exn :: "nat \<Rightarrow> nat \<Rightarrow> exn option"
  stdin_write_exn :: "exn option"
  stdin_flush_exn :: "exn option"
  stdin_close_exn :: "exn option"
  wait_exn :: "exn option"
  remove_exn :: "exn option"
  rmdir_exn :: "exn option"

text \<open>
  The world: the read position of \<^verbatim>\<open>csv_fh\<close>, how often the FIFO has been opened for
  writing, how many bytes \<^verbatim>\<open>write\<close> has accepted on the current open, and how many of
  them no flush has delivered yet.
\<close>

record world =
  csv_pos :: nat
  fifo_opens :: nat
  fifo_sent :: nat
  fifo_unflushed :: nat

definition csv_seek :: "nat \<Rightarrow> world \<Rightarrow> world" where
  "csv_seek n w = w\<lparr>csv_pos := n\<rparr>"

text \<open>\<^verbatim>\<open>csv_fh.read(n)\<close>: up to \<open>n\<close> bytes from the current position, fewer at the end.\<close>

definition csv_read :: "env \<Rightarrow> nat \<Rightarrow> world \<Rightarrow> byte list \<times> world" where
  "csv_read env n w =
     (let chunk = take n (drop (csv_pos w) (csv_data env))
      in (chunk, w\<lparr>csv_pos := csv_pos w + length chunk\<rparr>))"

definition open_fifo :: "world \<Rightarrow> world" where
  "open_fifo w = w\<lparr>fifo_opens := Suc (fifo_opens w), fifo_sent := 0, fifo_unflushed := 0\<rparr>"

definition fifo_write :: "env \<Rightarrow> byte list \<Rightarrow> world \<Rightarrow> exn option \<times> world" where
  "fifo_write env chunk w =
     (case write_exn env (fifo_opens w) (fifo_sent w) (length chunk) of
        Some e \<Rightarrow> (Some e, w)
      | None \<Rightarrow>
          (None, w\<lparr>fifo_sent := fifo_sent w + length chunk,
                    fifo_unflushed := fifo_unflushed w + length chunk\<rparr>))"

text \<open>
  \<^verbatim>\<open>fifo_fh.flush()\<close>: nothing to do, and nothing to fail, when the buffer is empty;
  the buffer is empty after a flush that returned and unchanged after one that raised.
\<close>

definition fifo_flush :: "env \<Rightarrow> world \<Rightarrow> exn option \<times> world" where
  "fifo_flush env w =
     (if fifo_unflushed w = 0 then (None, w)
      else (case flush_exn env (fifo_opens w) (fifo_sent w) of
              Some e \<Rightarrow> (Some e, w)
            | None \<Rightarrow> (None, w\<lparr>fifo_unflushed := 0\<rparr>)))"

text \<open>
  \<^verbatim>\<open>fifo_fh.close()\<close>, called by the \<^verbatim>\<open>with\<close> statement on its way out: it flushes
  what the buffer still holds and raises what that flush raises.
\<close>

definition fifo_close :: "env \<Rightarrow> world \<Rightarrow> exn option" where
  "fifo_close env w = fst (fifo_flush env w)"

subsection \<open>\<^verbatim>\<open>transfer\<close> (lines 158--173)\<close>

text \<open>
  The handler of line 168 prints and raises the same exception again; any other
  exception passes through it untouched.
\<close>

definition reraise :: "exn \<Rightarrow> nat \<Rightarrow> event list" where
  "reraise e buf_size = (if e = BrokenPipeError then [PrintFailed buf_size] else [])"

text \<open>
  The \<^verbatim>\<open>while left > 0\<close> loop. \<open>file_size\<close> and \<open>left\<close> are natural numbers
  (\<^verbatim>\<open>ZipInfo.file_size\<close> is never negative, and \<open>can_do \<le> left\<close>, so the subtraction
  is exact). With \<open>buf_size = 0\<close> the Python loop does not end unless a call raises;
  the function is therefore partial, \<open>None\<close> standing for a loop that runs forever.
\<close>

partial_function (option) transfer_loop ::
  "env \<Rightarrow> nat \<Rightarrow> nat \<Rightarrow> world \<Rightarrow> (retval outcome \<times> world \<times> event list) option"
where
  "transfer_loop env buf_size left w =
     (if left > 0 then
        let can_do = min left buf_size;
            (chunk, w1) = csv_read env can_do w;
            (wr, w2) = fifo_write env chunk w1
        in (case wr of
              Some e \<Rightarrow>
                Some (Raise e, w2, [CsvRead can_do, FifoWrite chunk] @ reraise e buf_size)
            | None \<Rightarrow>
               (case fifo_flush env w2 of
                  (Some e, w3) \<Rightarrow>
                    Some (Raise e, w3,
                          [CsvRead can_do, FifoWrite chunk, FifoFlush] @ reraise e buf_size)
                | (None, w3) \<Rightarrow>
                    if left - can_do \<le> 0
                    then Some (Return PyTrue, w3, [CsvRead can_do, FifoWrite chunk, FifoFlush])
                    else Option.bind (transfer_loop env buf_size (left - can_do) w3)
                           (\<lambda>(r, w', evs).
                              Some (r, w', [CsvRead can_do, FifoWrite chunk, FifoFlush] @ evs))))
      else Some (Return PyNone, w, []))"

definition transfer ::
  "env \<Rightarrow> world \<Rightarrow> nat \<Rightarrow> nat \<Rightarrow> (retval outcome \<times> world \<times> event list) option" where
  "transfer env w file_size buf_size = transfer_loop env buf_size file_size w"

subsection \<open>\<^verbatim>\<open>create_import_sqlite\<close> (lines 84--155)\<close>

text \<open>
  The retry loop of lines 112--127, by recursion on \<^verbatim>\<open>buf_size_power\<close>. Every round
  opens the FIFO, rewinds the CSV and calls \<^verbatim>\<open>transfer\<close> with \<open>2 ^ buf_size_power\<close>.
  A return logs the power and leaves the loop; a \<^verbatim>\<open>BrokenPipeError\<close> is caught,
  logged, and the power decremented; any other exception leaves the loop. In all three
  cases the \<^verbatim>\<open>with\<close> statement then closes the FIFO, outside the \<^verbatim>\<open>try\<close> of lines
  119--127: an exception of that \<^verbatim>\<open>close\<close> leaves the loop, in place of any exception
  on its way. Only when it returns does the loop go on with the next round. When the
  power reaches zero the loop ends and the statements after it run as after a
  \<^verbatim>\<open>break\<close>.
\<close>

definition leave_with :: "env \<Rightarrow> world \<Rightarrow> unit outcome \<Rightarrow> unit outcome" where
  "leave_with env w pending =
     (case fifo_close env w of Some e \<Rightarrow> Raise e | None \<Rightarrow> pending)"

fun backoff ::
  "env \<Rightarrow> nat \<Rightarrow> nat \<Rightarrow> world \<Rightarrow> (unit outcome \<times> world \<times> event list) option" where
  "backoff env file_size 0 w = Some (Return (), w, [])"
| "backoff env file_size (Suc n) w =
     (case transfer env (csv_seek 0 (open_fifo w)) file_size (2 ^ Suc n) of
        None \<Rightarrow> None
      | Some (Return finished, w', evs) \<Rightarrow>
          Some (leave_with env w' (Return ()), w',
                [OpenFifo, CsvSeek 0] @ evs @ [LogWorked (Suc n), FifoClose])
      | Some (Raise e, w', evs) \<Rightarrow>
          if e = BrokenPipeError then
            (case fifo_close env w' of
               Some e' \<Rightarrow>
                 Some (Raise e', w',
                       [OpenFifo, CsvSeek 0] @ evs @ [LogFailed (Suc n), FifoClose])
             | None \<Rightarrow>
                (case backoff env file_size n w' of
                   None \<Rightarrow> None
                 | Some (r, w'', evs') \<Rightarrow>
                     Some (r, w'',
                           [OpenFifo, CsvSeek 0] @ evs @ [LogFailed (Suc n), FifoClose] @ evs')))
          else Some (leave_with env w' (Raise e), w', [OpenFifo, CsvSeek 0] @ evs @ [FifoClose]))"

text \<open>
  The local variables that the \<^verbatim>\<open>finally\<close> block reads, and whether they have been
  assigned. Reading an unassigned local raises \<^verbatim>\<open>UnboundLocalError\<close>.
\<close>

record locals =
  tmpdir_bound :: bool
  fifo_fname_bound :: bool
  proc_bound :: bool

text \<open>
  The body of the \<^verbatim>\<open>try\<close> (lines 86--90). \<^verbatim>\<open>fifo_fname\<close> is assigned before
  \<^verbatim>\<open>os.mkfifo\<close> is called.
\<close>

definition make_fifo :: "env \<Rightarrow> unit outcome \<times> locals \<times> event list" where
  "make_fifo env =
     (case mkdtemp_exn env of
        Some e \<Rightarrow>
          (Raise e, \<lparr>tmpdir_bound = False, fifo_fname_bound = False, proc_bound = False\<rparr>,
           [Mkdtemp])
      | None \<Rightarrow>
         (case mkfifo_exn env of
            Some e \<Rightarrow>
              (Raise e, \<lparr>tmpdir_bound = True, fifo_fname_bound = True, proc_bound = False\<rparr>,
               [Mkdtemp, Mkfifo])
          | None \<Rightarrow>
              (Return (), \<lparr>tmpdir_bound = True, fifo_fname_bound = True, proc_bound = False\<rparr>,
               [Mkdtemp, Mkfifo])))"

text \<open>
  The \<^verbatim>\<open>else\<close> block (lines 94--130). \<^verbatim>\<open>run\<close> is called in every case; with a
  program name of \<^verbatim>\<open>None\<close> it raises \<^verbatim>\<open>TypeError\<close>, with \<^verbatim>\<open>check=True\<close> it raises
  \<^verbatim>\<open>CalledProcessError\<close> at a non-zero exit status. \<^verbatim>\<open>proc\<close> is assigned when
  \<^verbatim>\<open>Popen\<close> returns. The retry loop starts at power 24.
\<close>

definition import_block ::
  "env \<Rightarrow> nat \<Rightarrow> locals \<Rightarrow> world \<Rightarrow> (unit outcome \<times> locals \<times> world \<times> event list) option" where
  "import_block env file_size l w =
     (if \<not> which_sqlite3 env then Some (Raise TypeError, l, w, [RunCreateTable])
      else if run_returncode env \<noteq> 0
      then Some (Raise (CalledProcessError (run_returncode env)), l, w, [RunCreateTable])
      else
        (case popen_exn env of
           Some e \<Rightarrow> Some (Raise e, l, w, [RunCreateTable, PopenImport])
         | None \<Rightarrow>
            (case backoff env file_size 24 w of
               None \<Rightarrow> None
             | Some (r, w', evs) \<Rightarrow>
                 Some (r, l\<lparr>proc_bound := True\<rparr>, w', [RunCreateTable, PopenImport] @ evs))))"

text \<open>A call that raises \<open>e\<close> or returns, and the sequence of two blocks.\<close>

definition call :: "event \<Rightarrow> exn option \<Rightarrow> unit outcome \<times> event list" where
  "call ev x = (case x of None \<Rightarrow> (Return (), [ev]) | Some e \<Rightarrow> (Raise e, [ev]))"

definition seq ::
  "unit outcome \<times> event list \<Rightarrow> unit outcome \<times> event list \<Rightarrow> unit outcome \<times> event list" where
  "seq a b =
     (case a of
        (Raise e, evs) \<Rightarrow> (Raise e, evs)
      | (Return u, evs) \<Rightarrow> (fst b, evs @ snd b))"

definition unbound :: "string \<Rightarrow> unit outcome \<times> event list" where
  "unbound name = (Raise (UnboundLocalError name), [])"

text \<open>Lines 142--145: \<^verbatim>\<open>.quit\<close> to the standard input of sqlite3, flush, close, wait.\<close>

definition terminate :: "env \<Rightarrow> unit outcome \<times> event list" where
  "terminate env =
     seq (call StdinWrite (stdin_write_exn env))
    (seq (call StdinFlush (stdin_flush_exn env))
    (seq (call StdinClose (stdin_close_exn env))
         (call ProcWait (wait_exn env))))"

text \<open>
  The \<^verbatim>\<open>finally\<close> block (lines 132--155). \<^verbatim>\<open>csv_fh\<close>, a \<^verbatim>\<open>Popen\<close> object and the two
  path names are true values when they are bound, so each \<^verbatim>\<open>if\<close> is taken then; it
  raises when its variable is unbound.
\<close>

definition finally_block :: "env \<Rightarrow> locals \<Rightarrow> unit outcome \<times> event list" where
  "finally_block env l =
     seq (Return (), [CsvClose])
    (seq (if proc_bound l then terminate env else unbound ''proc'')
    (seq (if fifo_fname_bound l then call OsRemove (remove_exn env) else unbound ''fifo_fname'')
         (if tmpdir_bound l then call OsRmdir (rmdir_exn env) else unbound ''tmpdir'')))"

text \<open>
  What leaves a \<^verbatim>\<open>try\<close> statement: the exception of the \<^verbatim>\<open>finally\<close> block when it
  raises, the pending outcome otherwise.
\<close>

definition after_finally :: "unit outcome \<Rightarrow> unit outcome \<Rightarrow> unit outcome" where
  "after_finally pending fin = (case fin of Raise e \<Rightarrow> Raise e | Return u \<Rightarrow> pending)"

text \<open>
  The whole function. An \<^verbatim>\<open>OSError\<close> of the \<^verbatim>\<open>try\<close> body is logged and swallowed
  (line 92); the \<^verbatim>\<open>else\<close> block runs only when the body returned; the \<^verbatim>\<open>finally\<close>
  block runs in every case.
\<close>

definition create_import_sqlite ::
  "env \<Rightarrow> nat \<Rightarrow> world \<Rightarrow> (unit outcome \<times> world \<times> event list) option" where
  "create_import_sqlite env file_size w =
     (case make_fifo env of
        (Raise e, l, evs) \<Rightarrow>
          (if isinstance_OSError e
           then Some (after_finally (Return ()) (fst (finally_block env l)), w,
                      evs @ [LogFifoFailed] @ snd (finally_block env l))
           else Some (after_finally (Raise e) (fst (finally_block env l)), w,
                      evs @ snd (finally_block env l)))
      | (Return u, l, evs) \<Rightarrow>
          (case import_block env file_size l w of
             None \<Rightarrow> None
           | Some (r, l', w', evs1) \<Rightarrow>
               Some (after_finally r (fst (finally_block env l')), w',
                     evs @ evs1 @ snd (finally_block env l'))))"

subsection \<open>What a list of events shows\<close>

text \<open>The bytes handed to \<^verbatim>\<open>fifo_fh.write\<close>, in order.\<close>

fun written :: "event list \<Rightarrow> byte list" where
  "written [] = []"
| "written (FifoWrite chunk # evs) = chunk @ written evs"
| "written (ev # evs) = written evs"

text \<open>The attempts: one per opening of the FIFO.\<close>

definition attempts :: "event list \<Rightarrow> nat" where
  "attempts evs = count_list evs OpenFifo"

text \<open>The log lines of the retry loop, in order.\<close>

fun is_report :: "event \<Rightarrow> bool" where
  "is_report (LogWorked p) = True"
| "is_report (LogFailed p) = True"
| "is_report ev = False"

definition reports :: "event list \<Rightarrow> event list" where
  "reports evs = filter is_report evs"

text \<open>The events that \<^verbatim>\<open>transfer\<close> and the retry loop can produce.\<close>

fun transfer_event :: "event \<Rightarrow> bool" where
  "transfer_event (CsvRead n) = True"
| "transfer_event (FifoWrite chunk) = True"
| "transfer_event FifoFlush = True"
| "transfer_event (PrintFailed b) = True"
| "transfer_event ev = False"

fun loop_event :: "event \<Rightarrow> bool" where
  "loop_event OpenFifo = True"
| "loop_event (CsvSeek n) = True"
| "loop_event FifoClose = True"
| "loop_event (LogWorked p) = True"
| "loop_event (LogFailed p) = True"
| "loop_event ev = transfer_event ev"

subsection \<open>\<^verbatim>\<open>main\<close> (lines 176--200)\<close>

text \<open>
  The parsed command line, as \<^verbatim>\<open>get_args\<close> returns it: an option that was not given
  is \<^verbatim>\<open>None\<close>. \<^verbatim>\<open>argparse\<close> itself is not modelled.
\<close>

record args =
  zip_file :: "string option"
  sqlite_db_file :: "string option"
  name_filter :: "string option"
  max_csv_rows :: "int option"

text \<open>Python's truth value of an optional string: \<^verbatim>\<open>None\<close> and \<^verbatim>\<open>""\<close> are false.\<close>

fun truthy :: "string option \<Rightarrow> bool" where
  "truthy None = False"
| "truthy (Some s) = (s \<noteq> [])"

text \<open>
  What the script does: print the help text, call \<^verbatim>\<open>zip_walker\<close> (with or without
  \<^verbatim>\<open>create_import_sqlite\<close> as its \<^verbatim>\<open>output_fn\<close>), print an exception.
\<close>

datatype cli_event = PrintHelp | ZipWalker bool | PrintException exn

text \<open>
  \<open>re_compiles s\<close> tells whether \<^verbatim>\<open>re.compile(s, re.I)\<close> returns (it raises
  \<^verbatim>\<open>re.error\<close> otherwise); \<open>zip_walker_exn\<close> is what the call of \<^verbatim>\<open>zip_walker\<close> raises,
  if anything.
\<close>

record cli_env =
  re_compiles :: "string \<Rightarrow> bool"
  zip_walker_exn :: "exn option"

text \<open>
  \<^verbatim>\<open>create_fn\<close> is \<^verbatim>\<open>create_import_sqlite\<close> bound to the database path when one is
  given, \<^verbatim>\<open>None\<close> otherwise. \<^verbatim>\<open>name_filter\<close> is assigned only under
  \<^verbatim>\<open>if args.name_filter\<close>, where the pattern is compiled, and read when \<^verbatim>\<open>zip_walker\<close>
  is called.
\<close>

definition main :: "cli_env \<Rightarrow> args \<Rightarrow> unit outcome \<times> cli_event list" where
  "main cenv a =
     (let create_fn = truthy (sqlite_db_file a) in
      if truthy (name_filter a) \<and>
         \<not> re_compiles cenv (case name_filter a of Some s \<Rightarrow> s | None \<Rightarrow> [])
      then (Raise ReError, [])
      else if truthy (zip_file a) then
        (if truthy (name_filter a) then
           (case zip_walker_exn cenv of
              None \<Rightarrow> (Return (), [ZipWalker create_fn])
            | Some e \<Rightarrow> (Raise e, [ZipWalker create_fn]))
         else (Raise (UnboundLocalError ''name_filter''), []))
      else (Return (), [PrintHelp]))"

text \<open>
  Lines 196--200: the script prints an exception of \<^verbatim>\<open>main\<close> and ends; its exit
  status is 0 either way.
\<close>

definition script :: "cli_env \<Rightarrow> args \<Rightarrow> nat \<times> cli_event list" where
  "script cenv a =
     (case main cenv a of
        (Return u, evs) \<Rightarrow> (0, evs)
      | (Raise e, evs) \<Rightarrow> (0, evs @ [PrintException e]))"

subsection \<open>Conditions on the environment\<close>

text \<open>
  \<^verbatim>\<open>Popen\<close> is reached and returns, so that the importing sqlite3 runs, exactly when every
  call before it returned and the table-creating run ended with status 0.
\<close>

definition loader_started :: "env \<Rightarrow> bool" where
  "loader_started env =
     (mkdtemp_exn env = None \<and> mkfifo_exn env = None \<and> which_sqlite3 env \<and>
      run_returncode env = 0 \<and> popen_exn env = None)"



text \<open>The local variables once \<^verbatim>\<open>Popen\<close> has returned.\<close>

definition all_bound :: locals where
  "all_bound = \<lparr>tmpdir_bound = True, fifo_fname_bound = True, proc_bound = True\<rparr>"

text \<open>The events of the \<^verbatim>\<open>finally\<close> block.\<close>

fun cleanup_event :: "event \<Rightarrow> bool" where
  "cleanup_event CsvClose = True"
| "cleanup_event StdinWrite = True"
| "cleanup_event StdinFlush = True"
| "cleanup_event StdinClose = True"
| "cleanup_event ProcWait = True"
| "cleanup_event OsRemove = True"
| "cleanup_event OsRmdir = True"
| "cleanup_event ev = False"

subsection \<open>Environments to run the program in\<close>

text \<open>
  \<open>quiet_env d\<close>: the CSV member holds the bytes \<open>d\<close> and every call returns.
  \<open>deaf_reader d\<close>: the same, but the reader has closed its end before the first byte
  of every attempt, and the writer has a buffer of 4096 bytes, the block size of a FIFO
  on Linux: a chunk of up to 4096 bytes is stored by \<^verbatim>\<open>write\<close> and the flush raises;
  a larger chunk makes \<^verbatim>\<open>write\<close> raise. \<open>world0\<close>: the CSV at its start, the FIFO
  never opened.
\<close>

definition quiet_env :: "byte list \<Rightarrow> env" where
  "quiet_env d =
     \<lparr>csv_data = d, mkdtemp_exn = None, mkfifo_exn = None, which_sqlite3 = True,
      run_returncode = 0, popen_exn = None,
      write_exn = (\<lambda>k s n. None), flush_exn = (\<lambda>k s. None),
      stdin_write_exn = None, stdin_flush_exn = None, stdin_close_exn = None,
      wait_exn = None, remove_exn = None, rmdir_exn = None\<rparr>"

definition deaf_reader :: "byte list \<Rightarrow> env" where
  "deaf_reader d =
     (quiet_env d)\<lparr>write_exn := (\<lambda>k s n. if n \<le> 4096 then None else Some BrokenPipeError),
                     flush_exn := (\<lambda>k s. Some BrokenPipeError)\<rparr>"

definition world0 :: world where
  "world0 = \<lparr>csv_pos = 0, fifo_opens = 0, fifo_sent = 0, fifo_unflushed = 0\<rparr>"

text \<open>
  \<open>schema_fails d\<close>: the table-creating sqlite3 exits with status 1.
  \<open>mkfifo_fails d\<close>: \<^verbatim>\<open>os.mkfifo\<close> raises \<^verbatim>\<open>OSError\<close>.
  \<open>quit_fails d\<close>: sqlite3 has died, so flushing \<^verbatim>\<open>.quit\<close> to it raises.
  \<open>fifo_gone d\<close>: the FIFO no longer exists when \<^verbatim>\<open>os.remove\<close> is called.
  Every other call returns.
\<close>

definition schema_fails :: "byte list \<Rightarrow> env" where
  "schema_fails d = (quiet_env d)\<lparr>run_returncode := 1\<rparr>"

definition mkfifo_fails :: "byte list \<Rightarrow> env" where
  "mkfifo_fails d = (quiet_env d)\<lparr>mkfifo_exn := Some OSError\<rparr>"

definition quit_fails :: "byte list \<Rightarrow> env" where
  "quit_fails d = (quiet_env d)\<lparr>stdin_flush_exn := Some BrokenPipeError\<rparr>"

definition fifo_gone :: "byte list \<Rightarrow> env" where
  "fifo_gone d = (quiet_env d)\<lparr>remove_exn := Some FileNotFoundError\<rparr>"


text \<open>
  A pattern compiler that rejects the pattern \<^verbatim>\<open>(\<close>, as \<^verbatim>\<open>re.compile\<close> does (the
  parenthesis is never closed), and accepts every other one.
\<close>

definition paren_re :: cli_env where
  "paren_re = \<lparr>re_compiles = (\<lambda>s. s \<noteq> ''(''), zip_walker_exn = None\<rparr>"

section \<open>Properties\<close>

subsection \<open>One round of each loop\<close>

lemma transfer_loop_zero: "transfer_loop env b 0 w = Some (Return PyNone, w, [])"
  by (subst transfer_loop.simps) simp

lemma fifo_flush_frame:
  "fifo_flush env w = (x, w') \<Longrightarrow>
     csv_pos w' = csv_pos w \<and> fifo_opens w' = fifo_opens w \<and> fifo_sent w' = fifo_sent w"
  by (auto simp: fifo_flush_def split: if_splits option.splits)

lemma fifo_flush_returns: "fifo_flush env w = (None, w') \<Longrightarrow> fifo_unflushed w' = 0"
  by (auto simp: fifo_flush_def split: if_splits option.splits)

lemma fifo_flush_raises: "fifo_flush env w = (Some e, w') \<Longrightarrow> w' = w \<and> fifo_close env w = Some e"
  by (auto simp: fifo_flush_def fifo_close_def split: if_splits option.splits)

lemma fifo_flush_quiet:
  "\<forall>s. flush_exn env (fifo_opens w) s = None \<Longrightarrow> fifo_flush env w = (None, w\<lparr>fifo_unflushed := 0\<rparr>)"
  by (simp add: fifo_flush_def)

lemma fifo_close_empty: "fifo_unflushed w = 0 \<Longrightarrow> fifo_close env w = None"
  by (simp add: fifo_close_def fifo_flush_def)

lemma transfer_loop_cases:
  assumes "0 < left"
    and "c = min left b"
    and "chunk = take c (drop (csv_pos w) (csv_data env))"
    and "w1 = w\<lparr>csv_pos := csv_pos w + length chunk\<rparr>"
    and "w2 = w1\<lparr>fifo_sent := fifo_sent w + length chunk,
                  fifo_unflushed := fifo_unflushed w + length chunk\<rparr>"
  shows write_raises:
      "write_exn env (fifo_opens w) (fifo_sent w) (length chunk) = Some e \<Longrightarrow>
       transfer_loop env b left w =
         Some (Raise e, w1, [CsvRead c, FifoWrite chunk] @ reraise e b)"
    and flush_raises:
      "write_exn env (fifo_opens w) (fifo_sent w) (length chunk) = None \<Longrightarrow>
       fifo_flush env w2 = (Some e, w3) \<Longrightarrow>
       transfer_loop env b left w =
         Some (Raise e, w3, [CsvRead c, FifoWrite chunk, FifoFlush] @ reraise e b)"
    and last_chunk:
      "write_exn env (fifo_opens w) (fifo_sent w) (length chunk) = None \<Longrightarrow>
       fifo_flush env w2 = (None, w3) \<Longrightarrow>
       left \<le> c \<Longrightarrow>
       transfer_loop env b left w =
         Some (Return PyTrue, w3, [CsvRead c, FifoWrite chunk, FifoFlush])"
    and next_chunk:
      "write_exn env (fifo_opens w) (fifo_sent w) (length chunk) = None \<Longrightarrow>
       fifo_flush env w2 = (None, w3) \<Longrightarrow>
       \<not> left \<le> c \<Longrightarrow>
       transfer_loop env b left w =
         (case transfer_loop env b (left - c) w3 of
            None \<Rightarrow> None
          | Some (r, w', evs) \<Rightarrow> Some (r, w', [CsvRead c, FifoWrite chunk, FifoFlush] @ evs))"
  using assms(1) unfolding assms(2-5)
  by (subst transfer_loop.simps;
      simp add: Let_def csv_read_def fifo_write_def split: option.splits)+

text \<open>
  With a buffer size above zero \<^verbatim>\<open>transfer\<close> ends. It opens nothing, its events are
  reads, writes, flushes and the \<^verbatim>\<open>print\<close>, and, started on an empty buffer, it leaves
  the buffer empty unless it ends with the exception of a flush, which \<^verbatim>\<open>close\<close> then
  raises again.
\<close>

lemma transfer_loop_total:
  "0 < b \<Longrightarrow> \<exists>r w' evs. transfer_loop env b left w = Some (r, w', evs)
      \<and> fifo_opens w' = fifo_opens w \<and> list_all transfer_event evs
      \<and> (fifo_unflushed w = 0 \<longrightarrow>
           (\<forall>v. r = Return v \<longrightarrow> fifo_unflushed w' = 0) \<and>
           (\<forall>e. r = Raise e \<longrightarrow> fifo_unflushed w' = 0 \<or> fifo_close env w' = Some e))"
proof (induction left arbitrary: w rule: less_induct)
  case (less left)
  show ?case
  proof (cases "left = 0")
    case True
    then show ?thesis by (simp add: transfer_loop_zero)
  next
    case False
    then have pos: "0 < left" by simp
    define c where "c = min left b"
    define chunk where "chunk = take c (drop (csv_pos w) (csv_data env))"
    define w1 where "w1 = w\<lparr>csv_pos := csv_pos w + length chunk\<rparr>"
    define w2 where "w2 = w1\<lparr>fifo_sent := fifo_sent w + length chunk,
                              fifo_unflushed := fifo_unflushed w + length chunk\<rparr>"
    note step = transfer_loop_cases [OF pos c_def chunk_def w1_def w2_def]
    have lt: "left - c < left" using False less.prems by (simp add: c_def)
    have o1: "fifo_opens w1 = fifo_opens w" "fifo_unflushed w1 = fifo_unflushed w"
      by (simp_all add: w1_def)
    have o2: "fifo_opens w2 = fifo_opens w" by (simp add: w2_def w1_def)
    show ?thesis
    proof (cases "write_exn env (fifo_opens w) (fifo_sent w) (length chunk)")
      case (Some e)
      then show ?thesis using step(1) [of e] o1 by (simp add: reraise_def)
    next
      case wr: None
      obtain x w3 where fl: "fifo_flush env w2 = (x, w3)" by (cases "fifo_flush env w2")
      have o3: "fifo_opens w3 = fifo_opens w" using fifo_flush_frame [OF fl] o2 by simp
      show ?thesis
      proof (cases x)
        case (Some e)
        then show ?thesis
          using step(2) [OF wr, of e w3] fl o3 fifo_flush_raises [of env w2 e w3]
          by (simp add: reraise_def)
      next
        case None
        with fl have fl': "fifo_flush env w2 = (None, w3)" by simp
        have u3: "fifo_unflushed w3 = 0" using fifo_flush_returns [OF fl'] .
        show ?thesis
        proof (cases "left \<le> c")
          case True
          then show ?thesis using step(3) [OF wr fl'] o3 u3 by simp
        next
          case gt: False
          from less.IH [OF lt less.prems, of w3]
          obtain r w' evs where ih: "transfer_loop env b (left - c) w3 = Some (r, w', evs)"
            "fifo_opens w' = fifo_opens w3" "list_all transfer_event evs"
            "fifo_unflushed w3 = 0 \<longrightarrow>
               (\<forall>v. r = Return v \<longrightarrow> fifo_unflushed w' = 0) \<and>
               (\<forall>e. r = Raise e \<longrightarrow> fifo_unflushed w' = 0 \<or> fifo_close env w' = Some e)" by (elim exE conjE)
          then show ?thesis using step(4) [OF wr fl' gt] o3 u3 by simp
        qed
      qed
    qed
  qed
qed

lemma take_take_drop: "take c xs @ take m (drop (length (take c xs)) xs) = take (c + m) xs"
proof (cases "c \<le> length xs")
  case True
  then show ?thesis by (simp add: take_add min_def)
next
  case False
  then show ?thesis by simp
qed

lemma transfer_loop_ok:
  assumes "0 < b"
    and "\<forall>s n. n \<le> b \<longrightarrow> write_exn env (fifo_opens w) s n = None"
    and "\<forall>s. flush_exn env (fifo_opens w) s = None"
  shows "\<exists>w' evs. transfer_loop env b left w =
            Some (Return (if left = 0 then PyNone else PyTrue), w', evs)
          \<and> written evs = take left (drop (csv_pos w) (csv_data env))"
  using assms
proof (induction left arbitrary: w rule: less_induct)
  case (less left)
  show ?case
  proof (cases "left = 0")
    case True
    then show ?thesis by (simp add: transfer_loop_zero)
  next
    case False
    then have pos: "0 < left" by simp
    define c where "c = min left b"
    define chunk where "chunk = take c (drop (csv_pos w) (csv_data env))"
    define w1 where "w1 = w\<lparr>csv_pos := csv_pos w + length chunk\<rparr>"
    define w2 where "w2 = w1\<lparr>fifo_sent := fifo_sent w + length chunk,
                              fifo_unflushed := fifo_unflushed w + length chunk\<rparr>"
    define w3 where "w3 = w2\<lparr>fifo_unflushed := 0\<rparr>"
    note step = transfer_loop_cases [OF pos c_def chunk_def w1_def w2_def]
    have lt: "left - c < left" using False less.prems by (simp add: c_def)
    have o2: "fifo_opens w2 = fifo_opens w" by (simp add: w2_def w1_def)
    have o3: "fifo_opens w3 = fifo_opens w" by (simp add: w3_def w2_def w1_def)
    have len: "length chunk \<le> b" by (simp add: chunk_def c_def)
    have wr: "write_exn env (fifo_opens w) (fifo_sent w) (length chunk) = None"
      using less.prems(2) len by blast
    have fl: "fifo_flush env w2 = (None, w3)"
      unfolding w3_def using less.prems(3) o2 by (intro fifo_flush_quiet) simp
    show ?thesis
    proof (cases "left \<le> c")
      case True
      then have "c = left" by (simp add: c_def)
      then have "chunk = take left (drop (csv_pos w) (csv_data env))" by (simp add: chunk_def)
      then show ?thesis
        using False step(3) [OF wr fl True] by simp
    next
      case gt: False
      from less.IH [OF lt less.prems(1), of w3] less.prems(2,3) o3
      obtain w' evs where ih: "transfer_loop env b (left - c) w3 =
            Some (Return (if left - c = 0 then PyNone else PyTrue), w', evs)"
        "written evs = take (left - c) (drop (csv_pos w3) (csv_data env))" by auto
      have pos2: "csv_pos w3 = csv_pos w + length chunk" by (simp add: w3_def w2_def w1_def)
      have "chunk @ take (left - c) (drop (csv_pos w + length chunk) (csv_data env))
            = take (c + (left - c)) (drop (csv_pos w) (csv_data env))"
        using take_take_drop [of c "drop (csv_pos w) (csv_data env)" "left - c"]
        unfolding chunk_def [symmetric] by (simp add: add.commute)
      moreover have "c + (left - c) = left" using gt by simp
      ultimately have cat: "chunk @ written evs = take left (drop (csv_pos w) (csv_data env))"
        using ih(2) pos2 by simp
      show ?thesis
        using False gt step(4) [OF wr fl gt] ih(1) cat by simp
    qed
  qed
qed

lemma backoff_unfold:
  "0 < p \<Longrightarrow> backoff env fsz p w =
     (case transfer env (csv_seek 0 (open_fifo w)) fsz (2 ^ p) of
        None \<Rightarrow> None
      | Some (Return finished, w', evs) \<Rightarrow>
          Some (leave_with env w' (Return ()), w',
                [OpenFifo, CsvSeek 0] @ evs @ [LogWorked p, FifoClose])
      | Some (Raise e, w', evs) \<Rightarrow>
          if e = BrokenPipeError then
            (case fifo_close env w' of
               Some e' \<Rightarrow>
                 Some (Raise e', w', [OpenFifo, CsvSeek 0] @ evs @ [LogFailed p, FifoClose])
             | None \<Rightarrow>
                (case backoff env fsz (p - 1) w' of
                   None \<Rightarrow> None
                 | Some (r, w'', evs') \<Rightarrow>
                     Some (r, w'',
                           [OpenFifo, CsvSeek 0] @ evs @ [LogFailed p, FifoClose] @ evs')))
          else Some (leave_with env w' (Raise e), w', [OpenFifo, CsvSeek 0] @ evs @ [FifoClose]))"
  by (cases p) (auto split: option.splits outcome.splits)

subsection \<open>The retry loop\<close>

lemma seek_open:
  "csv_seek 0 (open_fifo w) =
     \<lparr>csv_pos = 0, fifo_opens = Suc (fifo_opens w), fifo_sent = 0, fifo_unflushed = 0\<rparr>"
  by (cases w) (simp add: csv_seek_def open_fifo_def)

lemma transfer_loop_loop_events:
  "list_all transfer_event evs \<Longrightarrow> list_all loop_event evs"
  by (induction evs) (auto elim: transfer_event.elims)

lemma transfer_event_no_report: "list_all transfer_event evs \<Longrightarrow> reports evs = []"
  unfolding reports_def by (induction evs) (auto elim: transfer_event.elims)

lemma transfer_event_no_open: "list_all transfer_event evs \<Longrightarrow> attempts evs = 0"
  unfolding attempts_def by (induction evs) (auto elim: transfer_event.elims)

lemma reports_append: "reports (xs @ ys) = reports xs @ reports ys"
  by (simp add: reports_def)

lemma attempts_append: "attempts (xs @ ys) = attempts xs + attempts ys"
  by (induction xs) (simp_all add: attempts_def)

lemma written_append: "written (xs @ ys) = written xs @ written ys"
  by (induction xs rule: written.induct) simp_all

text \<open>
  What one call of \<^verbatim>\<open>transfer\<close> from the retry loop gives: it ends, on the same opening
  of the FIFO; when it returns, closing the FIFO returns; when it raises, closing the
  FIFO returns or raises the same exception.
\<close>

lemma transfer_in_loop:
  "\<exists>r w' evs. transfer env (csv_seek 0 (open_fifo w)) fsz (2 ^ p) = Some (r, w', evs)
      \<and> fifo_opens w' = Suc (fifo_opens w) \<and> list_all transfer_event evs
      \<and> (\<forall>v. r = Return v \<longrightarrow> fifo_close env w' = None)
      \<and> (\<forall>e. r = Raise e \<longrightarrow> fifo_close env w' = None \<or> fifo_close env w' = Some e)"
proof -
  have "0 < (2::nat) ^ p" by simp
  from transfer_loop_total [OF this, of env fsz "csv_seek 0 (open_fifo w)"]
  obtain r w' evs where t: "transfer_loop env (2 ^ p) fsz (csv_seek 0 (open_fifo w)) = Some (r, w', evs)"
    and o: "fifo_opens w' = fifo_opens (csv_seek 0 (open_fifo w))"
    and ev: "list_all transfer_event evs"
    and u: "fifo_unflushed (csv_seek 0 (open_fifo w)) = 0 \<longrightarrow>
           (\<forall>v. r = Return v \<longrightarrow> fifo_unflushed w' = 0) \<and>
           (\<forall>e. r = Raise e \<longrightarrow> fifo_unflushed w' = 0 \<or> fifo_close env w' = Some e)" by (elim exE conjE)
  have "(\<forall>v. r = Return v \<longrightarrow> fifo_close env w' = None)
      \<and> (\<forall>e. r = Raise e \<longrightarrow> fifo_close env w' = None \<or> fifo_close env w' = Some e)"
    using u by (auto simp: seek_open fifo_close_empty)
  then show ?thesis using t o ev by (simp add: transfer_def seek_open)
qed

lemma backoff_total:
  "\<exists>r w' evs. backoff env fsz p w = Some (r, w', evs) \<and> list_all loop_event evs"
proof (induction p arbitrary: w)
  case 0
  show ?case by simp
next
  case (Suc n)
  from transfer_in_loop [of env w fsz "Suc n"]
  obtain r w1 evs1 where t: "transfer env (csv_seek 0 (open_fifo w)) fsz (2 ^ Suc n) = Some (r, w1, evs1)"
    and ev: "list_all transfer_event evs1" by blast
  from Suc.IH [of w1] obtain r2 w2 evs2 where b: "backoff env fsz n w1 = Some (r2, w2, evs2)"
    and ev2: "list_all loop_event evs2" by blast
  show ?case
    using t b ev2 transfer_loop_loop_events [OF ev]
    by (cases r; cases "fifo_close env w1") (simp_all del: power_Suc)
qed

subsection \<open>An empty source\<close>

text \<open>
  Claim C10. With a file size of zero \<^verbatim>\<open>transfer\<close> does not enter its loop: it makes no
  call at all (no read, no write, no flush), leaves the world as it is and returns
  \<^verbatim>\<open>None\<close>, not \<^verbatim>\<open>True\<close>. The retry loop started at power 24 takes this for a
  success: it opens the FIFO once, logs that power 24 worked, closes the FIFO and ends
  without an exception.
\<close>

theorem empty_source_one_attempt:
  "transfer env w 0 b = Some (Return PyNone, w, []) \<and>
   backoff env 0 24 w =
     Some (Return (), csv_seek 0 (open_fifo w), [OpenFifo, CsvSeek 0, LogWorked 24, FifoClose])"
  by (simp add: backoff_unfold transfer_def transfer_loop_zero leave_with_def fifo_close_empty
                seek_open)

subsection \<open>The whole import\<close>

lemma create_import_sqlite_started:
  "loader_started env \<Longrightarrow> create_import_sqlite env fsz w =
     (case backoff env fsz 24 w of
        None \<Rightarrow> None
      | Some (r, w', evs) \<Rightarrow>
          Some (after_finally r (fst (finally_block env all_bound)), w',
                [Mkdtemp, Mkfifo, RunCreateTable, PopenImport] @ evs @ snd (finally_block env all_bound)))"
  by (simp add: create_import_sqlite_def make_fifo_def import_block_def loader_started_def
                all_bound_def split: option.splits)

lemma finally_block_events: "list_all cleanup_event (snd (finally_block env l))"
  by (simp add: finally_block_def terminate_def seq_def call_def unbound_def
           split: option.splits)

lemma cleanup_event_no_report: "list_all cleanup_event evs \<Longrightarrow> reports evs = []"
  unfolding reports_def by (induction evs) (auto elim: cleanup_event.elims)

lemma cleanup_event_no_open: "list_all cleanup_event evs \<Longrightarrow> attempts evs = 0"
  unfolding attempts_def by (induction evs) (auto elim: cleanup_event.elims)

lemma cleanup_event_no_write: "list_all cleanup_event evs \<Longrightarrow> written evs = []"
  by (induction evs) (auto elim: cleanup_event.elims)


lemma after_finally_Return: "after_finally (Return ()) r = r"
  by (cases r) (simp_all add: after_finally_def)

text \<open>The definitions that a run on a given environment unfolds.\<close>

lemmas run_simps =
  create_import_sqlite_def make_fifo_def import_block_def backoff_unfold leave_with_def
  transfer_def transfer_loop_zero reraise_def world0_def
  csv_seek_def open_fifo_def csv_read_def fifo_write_def fifo_flush_def fifo_close_def
  finally_block_def terminate_def seq_def call_def unbound_def
  after_finally_def quiet_env_def Let_def

subsection \<open>No call fails\<close>

lemma backoff_first_try:
  assumes "\<forall>k s n. write_exn env k s n = None" and "\<forall>k s. flush_exn env k s = None"
    and "0 < p"
  shows "\<exists>w' evs. backoff env fsz p w = Some (Return (), w', evs)
           \<and> attempts evs = 1 \<and> written evs = take fsz (csv_data env)
           \<and> reports evs = [LogWorked p]"
proof -
  let ?w = "csv_seek 0 (open_fifo w)"
  have b: "0 < (2::nat) ^ p" by simp
  from transfer_loop_ok [OF b, of env ?w fsz] assms(1,2)
  obtain w' evs where t: "transfer env ?w fsz (2 ^ p) =
        Some (Return (if fsz = 0 then PyNone else PyTrue), w', evs)"
    and wr: "written evs = take fsz (drop (csv_pos ?w) (csv_data env))"
    unfolding transfer_def by auto
  from transfer_in_loop [of env w fsz p] t
  have ev: "list_all transfer_event evs" and cl: "fifo_close env w' = None" by auto
  have pos: "csv_pos ?w = 0" by (simp add: csv_seek_def)
  have "backoff env fsz p w =
          Some (Return (), w', [OpenFifo, CsvSeek 0] @ evs @ [LogWorked p, FifoClose])"
    using t cl assms(3) by (simp add: backoff_unfold leave_with_def)
  moreover have "attempts ([OpenFifo, CsvSeek 0] @ evs @ [LogWorked p, FifoClose]) = 1"
    using transfer_event_no_open [OF ev] by (simp add: attempts_append) (simp add: attempts_def)
  moreover have "written ([OpenFifo, CsvSeek 0] @ evs @ [LogWorked p, FifoClose])
      = take fsz (csv_data env)"
    using wr pos by (simp add: written_append)
  moreover have "reports ([OpenFifo, CsvSeek 0] @ evs @ [LogWorked p, FifoClose]) = [LogWorked p]"
    using transfer_event_no_report [OF ev] by (simp add: reports_append) (simp add: reports_def)
  ultimately show ?thesis by blast
qed

text \<open>
  Claim C2. Let the importing sqlite3 have been started, let no write and no flush on
  the FIFO ever raise, and let the CSV member hold exactly \<open>file_size\<close> bytes. Then
  the import opens the FIFO exactly once (one attempt, at power 24, logged as the one
  that worked), and the bytes handed to the FIFO, in the order of the writes, are the
  bytes of the member: \<open>file_size\<close> of them, equal byte for byte.
\<close>

theorem no_failure_single_attempt:
  assumes "loader_started env"
    and "\<forall>k s n. write_exn env k s n = None" and "\<forall>k s. flush_exn env k s = None"
    and "file_size = length (csv_data env)"
  shows "\<exists>r w' evs. create_import_sqlite env file_size w = Some (r, w', evs)
           \<and> attempts evs = 1 \<and> reports evs = [LogWorked 24]
           \<and> written evs = csv_data env \<and> length (written evs) = file_size"
proof -
  have "0 < (24::nat)" by simp
  from backoff_first_try [OF assms(2,3) this, of file_size w]
  obtain w' evs where b: "backoff env file_size 24 w = Some (Return (), w', evs)"
    and a: "attempts evs = 1" and wr: "written evs = take file_size (csv_data env)"
    and r: "reports evs = [LogWorked 24]" by blast
  note fin = finally_block_events [of env all_bound]
  let ?evs = "[Mkdtemp, Mkfifo, RunCreateTable, PopenImport] @ evs @ snd (finally_block env all_bound)"
  have "create_import_sqlite env file_size w =
          Some (fst (finally_block env all_bound), w', ?evs)"
    using b by (simp add: create_import_sqlite_started [OF assms(1)] after_finally_Return)
  moreover have "attempts ?evs = 1"
    using a cleanup_event_no_open [OF fin] by (simp add: attempts_append) (simp add: attempts_def)
  moreover have "reports ?evs = [LogWorked 24]"
    using r cleanup_event_no_report [OF fin] by (simp add: reports_append) (simp add: reports_def)
  moreover have "written ?evs = csv_data env"
    using wr cleanup_event_no_write [OF fin] assms(4) by (simp add: written_append)
  ultimately show ?thesis using assms(4) by auto
qed

theorem no_failure_single_attempt_witness:
  "loader_started (quiet_env [1, 2, 3]) \<and>
   (\<exists>r w' evs. create_import_sqlite (quiet_env [1, 2, 3]) 3 world0 = Some (r, w', evs)
       \<and> attempts evs = 1 \<and> written evs = [1, 2, 3])"
proof -
  have started: "loader_started (quiet_env [1, 2, 3])"
    by (simp add: loader_started_def quiet_env_def)
  have wr: "\<forall>k s n. write_exn (quiet_env [1, 2, 3]) k s n = None"
    and fl: "\<forall>k s. flush_exn (quiet_env [1, 2, 3]) k s = None"
    and len: "3 = length (csv_data (quiet_env [1, 2, 3]))"
    by (simp_all add: quiet_env_def)
  show ?thesis
    using no_failure_single_attempt [OF started wr fl len, of world0] started
    by (auto simp: quiet_env_def)
qed

subsection \<open>Every attempt fails\<close>



lemma transfer_loop_step:
  "0 < left \<Longrightarrow> transfer_loop env b left w =
     (let can_do = min left b;
          (chunk, w1) = csv_read env can_do w;
          (wr, w2) = fifo_write env chunk w1
      in (case wr of
            Some e \<Rightarrow> Some (Raise e, w2, [CsvRead can_do, FifoWrite chunk] @ reraise e b)
          | None \<Rightarrow>
             (case fifo_flush env w2 of
                (Some e, w3) \<Rightarrow>
                  Some (Raise e, w3, [CsvRead can_do, FifoWrite chunk, FifoFlush] @ reraise e b)
              | (None, w3) \<Rightarrow>
                  if left - can_do \<le> 0
                  then Some (Return PyTrue, w3, [CsvRead can_do, FifoWrite chunk, FifoFlush])
                  else Option.bind (transfer_loop env b (left - can_do) w3)
                         (\<lambda>(r, w', evs).
                            Some (r, w', [CsvRead can_do, FifoWrite chunk, FifoFlush] @ evs)))))"
  by (subst transfer_loop.simps) simp





subsection \<open>The \<^verbatim>\<open>finally\<close> block\<close>

lemma loop_event_not_cleanup: "list_all loop_event evs \<Longrightarrow> list_all (\<lambda>e. \<not> cleanup_event e) evs"
  by (induction evs) (auto elim: loop_event.elims transfer_event.elims)

lemma create_import_sqlite_shape:
  "\<exists>r w' pre l. create_import_sqlite env fsz w = Some (r, w', pre @ snd (finally_block env l))
      \<and> list_all (\<lambda>e. \<not> cleanup_event e) pre
      \<and> (proc_bound l = loader_started env)"
proof (cases "loader_started env")
  case True
  from backoff_total [of env fsz 24 w]
  obtain r w' evs where b: "backoff env fsz 24 w = Some (r, w', evs)"
    and ev: "list_all loop_event evs" by blast
  have "create_import_sqlite env fsz w =
     Some (after_finally r (fst (finally_block env all_bound)), w',
           ([Mkdtemp, Mkfifo, RunCreateTable, PopenImport] @ evs) @ snd (finally_block env all_bound))"
    using b by (simp add: create_import_sqlite_started [OF True])
  moreover have "list_all (\<lambda>e. \<not> cleanup_event e) ([Mkdtemp, Mkfifo, RunCreateTable, PopenImport] @ evs)"
    using loop_event_not_cleanup [OF ev] by simp
  moreover have "proc_bound all_bound = loader_started env"
    using True by (simp add: all_bound_def)
  ultimately show ?thesis by blast
next
  case False
  define l0 where "l0 = \<lparr>tmpdir_bound = False, fifo_fname_bound = False, proc_bound = False\<rparr>"
  define l1 where "l1 = \<lparr>tmpdir_bound = True, fifo_fname_bound = True, proc_bound = False\<rparr>"
  have p0: "\<not> proc_bound l0" and p1: "\<not> proc_bound l1" by (simp_all add: l0_def l1_def)
  consider (a) "mkdtemp_exn env \<noteq> None"
    | (b) "mkdtemp_exn env = None" "mkfifo_exn env \<noteq> None"
    | (c) "mkdtemp_exn env = None" "mkfifo_exn env = None" "\<not> which_sqlite3 env"
    | (d) "mkdtemp_exn env = None" "mkfifo_exn env = None" "which_sqlite3 env" "run_returncode env \<noteq> 0"
    | (e) "mkdtemp_exn env = None" "mkfifo_exn env = None" "which_sqlite3 env" "run_returncode env = 0"
          "popen_exn env \<noteq> None"
    using False by (auto simp: loader_started_def)
  then show ?thesis
  proof cases
    case a
    then obtain e where "mkdtemp_exn env = Some e" by auto
    then have "\<exists>r pre. create_import_sqlite env fsz w = Some (r, w, pre @ snd (finally_block env l0))
        \<and> list_all (\<lambda>e. \<not> cleanup_event e) pre"
      by (cases "isinstance_OSError e")
         (simp_all add: create_import_sqlite_def make_fifo_def l0_def)
    then show ?thesis using False p0 by blast
  next
    case b
    then obtain e where "mkfifo_exn env = Some e" by auto
    then have "\<exists>r pre. create_import_sqlite env fsz w = Some (r, w, pre @ snd (finally_block env l1))
        \<and> list_all (\<lambda>e. \<not> cleanup_event e) pre"
      using b(1)
      by (cases "isinstance_OSError e")
         (simp_all add: create_import_sqlite_def make_fifo_def l1_def)
    then show ?thesis using False p1 by blast
  next
    case c
    then have "create_import_sqlite env fsz w =
        Some (after_finally (Raise TypeError) (fst (finally_block env l1)), w,
              [Mkdtemp, Mkfifo, RunCreateTable] @ snd (finally_block env l1))"
      by (simp add: create_import_sqlite_def make_fifo_def import_block_def l1_def)
    moreover have "list_all (\<lambda>e. \<not> cleanup_event e) [Mkdtemp, Mkfifo, RunCreateTable]" by simp
    ultimately show ?thesis using False p1 by blast
  next
    case d
    then have "create_import_sqlite env fsz w =
        Some (after_finally (Raise (CalledProcessError (run_returncode env))) (fst (finally_block env l1)), w,
              [Mkdtemp, Mkfifo, RunCreateTable] @ snd (finally_block env l1))"
      by (simp add: create_import_sqlite_def make_fifo_def import_block_def l1_def)
    moreover have "list_all (\<lambda>e. \<not> cleanup_event e) [Mkdtemp, Mkfifo, RunCreateTable]" by simp
    ultimately show ?thesis using False p1 by blast
  next
    case e
    then obtain x where "popen_exn env = Some x" by auto
    with e have "create_import_sqlite env fsz w =
        Some (after_finally (Raise x) (fst (finally_block env l1)), w,
              [Mkdtemp, Mkfifo, RunCreateTable, PopenImport] @ snd (finally_block env l1))"
      by (simp add: create_import_sqlite_def make_fifo_def import_block_def l1_def)
    moreover have "list_all (\<lambda>e. \<not> cleanup_event e) [Mkdtemp, Mkfifo, RunCreateTable, PopenImport]" by simp
    ultimately show ?thesis using False p1 by blast
  qed
qed

lemma finally_block_quit_first:
  "proc_bound l \<Longrightarrow> \<exists>post. snd (finally_block env l) = [CsvClose, StdinWrite] @ post"
  by (auto simp: finally_block_def terminate_def seq_def call_def unbound_def split: option.splits)

lemma finally_block_remove:
  "OsRemove \<in> set (snd (finally_block env l)) \<Longrightarrow>
     (\<exists>post. snd (finally_block env l) =
               [CsvClose, StdinWrite, StdinFlush, StdinClose, ProcWait, OsRemove] @ post
            \<and> OsRemove \<notin> set post)
     \<and> proc_bound l
     \<and> stdin_write_exn env = None \<and> stdin_flush_exn env = None
     \<and> stdin_close_exn env = None \<and> wait_exn env = None"
  by (auto simp: finally_block_def terminate_def seq_def call_def unbound_def
           split: option.splits if_splits)

lemma loop_event_no_removal:
  "list_all loop_event evs \<Longrightarrow>
     OsRemove \<notin> set evs \<and> OsRmdir \<notin> set evs \<and> count_list evs OsRemove = 0"
  by (induction evs) (auto elim: loop_event.elims transfer_event.elims)

lemma deaf_run_removes:
  "\<exists>r w' evs. create_import_sqlite (deaf_reader [0]) 1 world0 = Some (r, w', evs)
      \<and> OsRemove \<in> set evs"
  by (simp add: run_simps transfer_loop_step deaf_reader_def)

text \<open>
  Claim C5. Every run of the import ends; and in every run, whatever the calls answer
  and however the transfer ended: when the importing sqlite3 was started, \<^verbatim>\<open>.quit\<close> is
  written to it; and when the FIFO is removed at all, the sqlite3 was started, the four
  calls of the terminate sequence (write \<^verbatim>\<open>.quit\<close>, flush, close, wait) all returned, and
  they stand in this order directly before the one \<^verbatim>\<open>os.remove\<close>. So the FIFO is never
  removed before \<^verbatim>\<open>proc.wait()\<close> has returned.
\<close>

theorem terminate_before_remove:
  "\<exists>r w' evs. create_import_sqlite env file_size w = Some (r, w', evs) \<and>
     (loader_started env \<longrightarrow> StdinWrite \<in> set evs) \<and>
     (OsRemove \<in> set evs \<longrightarrow>
        loader_started env \<and>
        (\<exists>pre post. evs = pre @ [StdinWrite, StdinFlush, StdinClose, ProcWait, OsRemove] @ post
            \<and> OsRemove \<notin> set pre \<and> OsRemove \<notin> set post) \<and>
        stdin_write_exn env = None \<and> stdin_flush_exn env = None \<and>
        stdin_close_exn env = None \<and> wait_exn env = None)"
proof -
  from create_import_sqlite_shape [of env file_size w]
  obtain r w' pre l where c: "create_import_sqlite env file_size w =
        Some (r, w', pre @ snd (finally_block env l))"
    and pre: "list_all (\<lambda>e. \<not> cleanup_event e) pre"
    and pb: "proc_bound l = loader_started env" by blast
  let ?fin = "snd (finally_block env l)"
  have nopre: "OsRemove \<notin> set pre" "StdinWrite \<notin> set pre"
    using pre by (auto simp: list_all_iff)
  have quit: "loader_started env \<longrightarrow> StdinWrite \<in> set (pre @ ?fin)"
    using finally_block_quit_first [of l env] pb by auto
  have rem: "OsRemove \<in> set (pre @ ?fin) \<longrightarrow>
        loader_started env \<and>
        (\<exists>pre' post. pre @ ?fin = pre' @ [StdinWrite, StdinFlush, StdinClose, ProcWait, OsRemove] @ post
            \<and> OsRemove \<notin> set pre' \<and> OsRemove \<notin> set post) \<and>
        stdin_write_exn env = None \<and> stdin_flush_exn env = None \<and>
        stdin_close_exn env = None \<and> wait_exn env = None"
  proof
    assume "OsRemove \<in> set (pre @ ?fin)"
    with nopre have "OsRemove \<in> set ?fin" by simp
    from finally_block_remove [OF this]
    obtain post where f: "?fin = [CsvClose, StdinWrite, StdinFlush, StdinClose, ProcWait, OsRemove] @ post"
      and np: "OsRemove \<notin> set post" and b: "proc_bound l"
      and ok: "stdin_write_exn env = None" "stdin_flush_exn env = None"
              "stdin_close_exn env = None" "wait_exn env = None" by blast
    have "pre @ ?fin = (pre @ [CsvClose]) @ [StdinWrite, StdinFlush, StdinClose, ProcWait, OsRemove] @ post"
      using f by simp
    moreover have "OsRemove \<notin> set (pre @ [CsvClose])" using nopre by simp
    ultimately have "\<exists>pre' post. pre @ ?fin = pre' @ [StdinWrite, StdinFlush, StdinClose, ProcWait, OsRemove] @ post
            \<and> OsRemove \<notin> set pre' \<and> OsRemove \<notin> set post"
      using np by blast
    then show "loader_started env \<and>
        (\<exists>pre' post. pre @ ?fin = pre' @ [StdinWrite, StdinFlush, StdinClose, ProcWait, OsRemove] @ post
            \<and> OsRemove \<notin> set pre' \<and> OsRemove \<notin> set post) \<and>
        stdin_write_exn env = None \<and> stdin_flush_exn env = None \<and>
        stdin_close_exn env = None \<and> wait_exn env = None"
      using b pb ok by simp
  qed
  show ?thesis using c quit rem by blast
qed

theorem terminate_before_remove_witness:
  "loader_started (deaf_reader [0]) \<and>
   (\<exists>r w' pre post. create_import_sqlite (deaf_reader [0]) 1 world0 =
        Some (r, w', pre @ [StdinWrite, StdinFlush, StdinClose, ProcWait, OsRemove] @ post)
      \<and> OsRemove \<notin> set pre \<and> OsRemove \<notin> set post)"
proof -
  from deaf_run_removes obtain r w' evs where
    c: "create_import_sqlite (deaf_reader [0]) 1 world0 = Some (r, w', evs)"
    and m: "OsRemove \<in> set evs" by blast
  from terminate_before_remove [of "deaf_reader [0]" 1 world0] c m
  show ?thesis by auto
qed

text \<open>
  Claim C7, as the program has it. When the importing sqlite3 was started and
  terminated and \<^verbatim>\<open>os.remove\<close> then raises (for a FIFO that no longer exists:
  \<^verbatim>\<open>FileNotFoundError\<close>), that exception leaves the function: \<^verbatim>\<open>os.remove\<close> is the last
  call made, and \<^verbatim>\<open>os.rmdir\<close> is not called.
\<close>

theorem remove_failure_skips_rmdir:
  assumes "loader_started env"
    and "stdin_write_exn env = None" and "stdin_flush_exn env = None"
    and "stdin_close_exn env = None" and "wait_exn env = None"
    and "remove_exn env = Some e"
  shows "\<exists>w' evs. create_import_sqlite env file_size w = Some (Raise e, w', evs)
           \<and> count_list evs OsRemove = 1 \<and> last evs = OsRemove \<and> OsRmdir \<notin> set evs"
proof -
  from backoff_total [of env file_size 24 w]
  obtain r w' evs where b: "backoff env file_size 24 w = Some (r, w', evs)"
    and ev: "list_all loop_event evs" by blast
  have fin: "finally_block env all_bound =
      (Raise e, [CsvClose, StdinWrite, StdinFlush, StdinClose, ProcWait, OsRemove])"
    using assms(2-6)
    by (simp add: finally_block_def terminate_def seq_def call_def all_bound_def)
  have "create_import_sqlite env file_size w =
      Some (Raise e, w', [Mkdtemp, Mkfifo, RunCreateTable, PopenImport] @ evs @
                         [CsvClose, StdinWrite, StdinFlush, StdinClose, ProcWait, OsRemove])"
    using b fin by (simp add: create_import_sqlite_started [OF assms(1)] after_finally_def)
  then show ?thesis using loop_event_no_removal [OF ev] by simp
qed

text \<open>
  The claim as the specification states it fails: with an empty member and a FIFO that
  is gone at cleanup, the run ends with \<^verbatim>\<open>FileNotFoundError\<close> right after \<^verbatim>\<open>os.remove\<close>;
  no removal of the directory is attempted.
\<close>

theorem remove_failure_counterexample:
  "create_import_sqlite (fifo_gone []) 0 world0 =
     Some (Raise FileNotFoundError,
           \<lparr>csv_pos = 0, fifo_opens = 1, fifo_sent = 0, fifo_unflushed = 0\<rparr>,
           [Mkdtemp, Mkfifo, RunCreateTable, PopenImport,
            OpenFifo, CsvSeek 0, LogWorked 24, FifoClose,
            CsvClose, StdinWrite, StdinFlush, StdinClose, ProcWait, OsRemove])"
  by (simp add: run_simps fifo_gone_def)

theorem remove_failure_skips_rmdir_witness:
  "loader_started (fifo_gone [7]) \<and> remove_exn (fifo_gone [7]) = Some FileNotFoundError \<and>
   (\<exists>w' evs. create_import_sqlite (fifo_gone [7]) 1 world0 = Some (Raise FileNotFoundError, w', evs)
        \<and> last evs = OsRemove \<and> OsRmdir \<notin> set evs)"
proof -
  have started: "loader_started (fifo_gone [7])"
    by (simp add: loader_started_def fifo_gone_def quiet_env_def)
  have ok: "stdin_write_exn (fifo_gone [7]) = None" "stdin_flush_exn (fifo_gone [7]) = None"
      "stdin_close_exn (fifo_gone [7]) = None" "wait_exn (fifo_gone [7]) = None"
    and rm: "remove_exn (fifo_gone [7]) = Some FileNotFoundError"
    by (simp_all add: fifo_gone_def quiet_env_def)
  from remove_failure_skips_rmdir [OF started ok rm, of 1 world0] started rm
  show ?thesis by auto
qed

text \<open>
  Claim C4 does not hold of the program. \<^verbatim>\<open>proc\<close> is read by the \<^verbatim>\<open>finally\<close> block
  (line 140) and is unbound unless \<^verbatim>\<open>Popen\<close> has returned. Three runs in which the
  FIFO and the directory are left behind: the table-creating sqlite3 exits with status
  1; \<^verbatim>\<open>os.mkfifo\<close> raises (the directory exists already); flushing \<^verbatim>\<open>.quit\<close> to a
  sqlite3 that has died raises.
  In none of them \<^verbatim>\<open>os.remove\<close> or \<^verbatim>\<open>os.rmdir\<close> is called.
\<close>

theorem cleanup_skipped:
  "create_import_sqlite (schema_fails []) 0 world0 =
     Some (Raise (UnboundLocalError ''proc''), world0,
           [Mkdtemp, Mkfifo, RunCreateTable, CsvClose]) \<and>
   create_import_sqlite (mkfifo_fails []) 0 world0 =
     Some (Raise (UnboundLocalError ''proc''), world0,
           [Mkdtemp, Mkfifo, LogFifoFailed, CsvClose]) \<and>
   create_import_sqlite (quit_fails []) 0 world0 =
     Some (Raise BrokenPipeError,
           \<lparr>csv_pos = 0, fifo_opens = 1, fifo_sent = 0, fifo_unflushed = 0\<rparr>,
           [Mkdtemp, Mkfifo, RunCreateTable, PopenImport,
            OpenFifo, CsvSeek 0, LogWorked 24, FifoClose, CsvClose, StdinWrite, StdinFlush])"
  by (simp add: run_simps schema_fails_def mkfifo_fails_def quit_fails_def)

text \<open>
  Claim C6 does not hold of the program. When the directory and the FIFO were made and
  the table-creating sqlite3 exits with a non-zero status, the run does end before the
  FIFO is opened or anything is transferred, but what reaches the caller is the
  \<^verbatim>\<open>UnboundLocalError\<close> of line 140 in place of the \<^verbatim>\<open>CalledProcessError\<close>, and neither
  the FIFO nor the directory is removed.
\<close>

theorem schema_failure_outcome:
  assumes "mkdtemp_exn env = None" and "mkfifo_exn env = None" and "which_sqlite3 env"
    and "run_returncode env \<noteq> 0"
  shows "create_import_sqlite env file_size w =
           Some (Raise (UnboundLocalError ''proc''), w,
                 [Mkdtemp, Mkfifo, RunCreateTable, CsvClose])"
  using assms
  by (simp add: create_import_sqlite_def make_fifo_def import_block_def finally_block_def
                seq_def unbound_def after_finally_def)

theorem schema_failure_outcome_witness:
  "run_returncode (schema_fails [1, 2, 3]) \<noteq> 0 \<and>
   create_import_sqlite (schema_fails [1, 2, 3]) 3 world0 =
     Some (Raise (UnboundLocalError ''proc''), world0,
           [Mkdtemp, Mkfifo, RunCreateTable, CsvClose])"
proof -
  have h: "mkdtemp_exn (schema_fails [1, 2, 3]) = None" "mkfifo_exn (schema_fails [1, 2, 3]) = None"
      "which_sqlite3 (schema_fails [1, 2, 3])" "run_returncode (schema_fails [1, 2, 3]) \<noteq> 0"
    by (simp_all add: schema_fails_def quiet_env_def)
  from schema_failure_outcome [OF h, of 3 world0] h(4) show ?thesis by simp
qed

subsection \<open>One failed attempt\<close>




subsection \<open>A reader with a capacity\<close>








subsection \<open>The command line\<close>

text \<open>
  Claim C9, as the program has it. When no archive path is given (\<^verbatim>\<open>--zip\<close> absent or
  empty), the script ends with exit status 0 and never calls \<^verbatim>\<open>zip_walker\<close>, so that
  nothing is walked or imported. It prints the help text, and nothing else, when moreover
  the name filter is absent, empty or a pattern that compiles: the filter is compiled
  (line 184) before the archive path is looked at.
\<close>

theorem no_archive_prints_help:
  assumes "\<not> truthy (zip_file a)"
  shows "fst (script cenv a) = 0 \<and> (\<forall>b. ZipWalker b \<notin> set (snd (script cenv a))) \<and>
         ((truthy (name_filter a) \<longrightarrow> (\<exists>s. name_filter a = Some s \<and> re_compiles cenv s)) \<longrightarrow>
            main cenv a = (Return (), [PrintHelp]) \<and> script cenv a = (0, [PrintHelp]))"
  using assms by (auto simp: script_def main_def Let_def split: option.splits)

text \<open>
  The claim as the specification states it fails when the filter does not compile:
  for \<^verbatim>\<open>--filter "("\<close> and no archive, \<^verbatim>\<open>re.compile\<close> raises, the script prints that
  exception and ends with status 0, and the help text is not printed.
\<close>

theorem no_archive_counterexample:
  "script paren_re \<lparr>zip_file = None, sqlite_db_file = None, name_filter = Some ''('',
                     max_csv_rows = Some 0\<rparr> = (0, [PrintException ReError])"
  by (simp add: script_def main_def Let_def paren_re_def)

theorem no_archive_prints_help_witness:
  "\<not> truthy (zip_file \<lparr>zip_file = None, sqlite_db_file = Some ''out.db'',
                         name_filter = Some ''.*'', max_csv_rows = Some 0\<rparr>) \<and>
   script paren_re \<lparr>zip_file = None, sqlite_db_file = Some ''out.db'',
                     name_filter = Some ''.*'', max_csv_rows = Some 0\<rparr> = (0, [PrintHelp])"
proof -
  let ?a = "\<lparr>zip_file = None, sqlite_db_file = Some ''out.db'',
              name_filter = Some ''.*'', max_csv_rows = Some 0\<rparr>"
  have z: "\<not> truthy (zip_file ?a)" by simp
  have f: "truthy (name_filter ?a) \<longrightarrow> (\<exists>s. name_filter ?a = Some s \<and> re_compiles paren_re s)"
    by (simp add: paren_re_def)
  from no_archive_prints_help [OF z, of paren_re] f z show ?thesis by blast
qed

end
